theory Spec2Isabelle
  imports Complex_Main
begin

section \<open>Python values shared by the shims of \<open>zernipax/backend.py\<close>\<close>

text \<open>
  The exceptions that the modelled code, the Python call protocol and the NumPy
  functions it calls can raise.  A function that can raise returns
  \<open>py_error + 'a\<close>, with \<open>Inl\<close> for the exception.
\<close>

datatype py_error =
  IndexError | ValueError | TypeError | AxisError
  | ModuleNotFoundError | ImportError | RuntimeError | UserWarning

text \<open>
  Indexing a Python sequence of length \<open>n\<close>: an index in \<open>[0, n)\<close> is
  used as it is, one in \<open>[-n, 0)\<close> counts from the end, every other index raises
  \<open>IndexError\<close>.
\<close>

definition norm_index :: "nat \<Rightarrow> int \<Rightarrow> py_error + nat" where
  "norm_index n i =
     (if 0 \<le> i \<and> i < int n then Inr (nat i)
      else if - int n \<le> i \<and> i < 0 then Inr (nat (i + int n))
      else Inl IndexError)"

definition getitem :: "'a list \<Rightarrow> int \<Rightarrow> py_error + 'a" where
  "getitem xs i = (case norm_index (length xs) i of Inl e \<Rightarrow> Inl e | Inr k \<Rightarrow> Inr (xs ! k))"

section \<open>The control-flow shims of the NumPy fallback branch\<close>

subsection \<open>\<open>fori_loop\<close>\<close>

text \<open>
  \<open>np.arange(lower, upper)\<close> on integers: the indices \<open>lower, ..., upper - 1\<close>,
  none when \<open>upper \<le> lower\<close>.
\<close>

definition np_arange :: "int \<Rightarrow> int \<Rightarrow> int list" where
  "np_arange lower upper = [lower..upper - 1]"

text \<open>
  The \<open>for\<close> loop of \<open>fori_loop\<close>: \<open>val = body_fun(i, val)\<close> for each index in
  order.  The body is any Python callable, so it may raise; the loop stops there and
  the exception leaves \<open>fori_loop\<close>.
\<close>

fun fori_iter :: "(int \<Rightarrow> 'a \<Rightarrow> py_error + 'a) \<Rightarrow> int list \<Rightarrow> 'a \<Rightarrow> py_error + 'a" where
  "fori_iter body_fun [] val = Inr val"
| "fori_iter body_fun (i # rest) val =
     (case body_fun i val of Inl e \<Rightarrow> Inl e | Inr val' \<Rightarrow> fori_iter body_fun rest val')"

definition fori_loop :: "int \<Rightarrow> int \<Rightarrow> (int \<Rightarrow> 'a \<Rightarrow> py_error + 'a) \<Rightarrow> 'a \<Rightarrow> py_error + 'a" where
  "fori_loop lower upper body_fun init_val =
     (let val = init_val in fori_iter body_fun (np_arange lower upper) val)"

subsection \<open>\<open>cond\<close>\<close>

text \<open>
  \<open>cond(pred, true_fun, false_fun, *operand)\<close>: the operands collected by
  \<open>*operand\<close> are one value of type \<open>'a\<close> (the tuple), and a branch function takes
  that tuple.
\<close>

definition cond :: "bool \<Rightarrow> ('a \<Rightarrow> 'b) \<Rightarrow> ('a \<Rightarrow> 'b) \<Rightarrow> 'a \<Rightarrow> 'b" where
  "cond pred true_fun false_fun operand =
     (if pred then true_fun operand else false_fun operand)"

subsection \<open>\<open>switch\<close>\<close>

text \<open>
  \<open>np.clip(a, a_min, a_max)\<close> on integers is
  \<open>minimum(a_max, maximum(a, a_min))\<close>.
\<close>

definition np_clip :: "int \<Rightarrow> int \<Rightarrow> int \<Rightarrow> int" where
  "np_clip a a_min a_max = min a_max (max a a_min)"

definition switch :: "int \<Rightarrow> ('a \<Rightarrow> 'b) list \<Rightarrow> 'a \<Rightarrow> py_error + 'b" where
  "switch index branches operand =
     (let index = np_clip index 0 (int (length branches) - 1)
      in case getitem branches index of
           Inl e \<Rightarrow> Inl e
         | Inr branch \<Rightarrow> Inr (branch operand))"

subsection \<open>The decorators \<open>jit\<close>, \<open>custom_jvp_with_jit\<close> and \<open>execute_on_cpu\<close>\<close>

text \<open>
  A call \<open>g(func, a1, ..., k1=v1, ...)\<close> of one of the three lambdas, with the
  arguments after \<open>func\<close> given as the list of extra positional arguments and the list
  of extra keyword arguments (name and value).  Python binds the arguments before the
  body runs: a keyword named \<open>func\<close> binds the first parameter a second time, and
  an argument that no parameter takes cannot be bound; both raise \<open>TypeError\<close>.
  \<open>lambda func, *args, **kwargs: func\<close> takes every other extra argument;
  \<open>lambda func: func\<close> takes none.
\<close>

definition jit :: "'f \<Rightarrow> 'a list \<Rightarrow> (string \<times> 'v) list \<Rightarrow> py_error + 'f" where
  "jit func args kwargs =
     (if ''func'' \<in> fst ` set kwargs then Inl TypeError else Inr func)"

definition custom_jvp_with_jit :: "'f \<Rightarrow> 'a list \<Rightarrow> (string \<times> 'v) list \<Rightarrow> py_error + 'f" where
  "custom_jvp_with_jit func args kwargs =
     (if ''func'' \<in> fst ` set kwargs then Inl TypeError else Inr func)"

definition execute_on_cpu :: "'f \<Rightarrow> 'a list \<Rightarrow> (string \<times> 'v) list \<Rightarrow> py_error + 'f" where
  "execute_on_cpu func args kwargs =
     (if args = [] \<and> kwargs = [] then Inr func else Inl TypeError)"

section \<open>Arrays\<close>

text \<open>
  An n-dimensional array is its shape and its elements in row-major order, as a
  C-contiguous \<open>ndarray\<close> holds them.  A scalar is the 0-dimensional array of
  shape \<open>()\<close> with one element.  An array is valid when it has as many elements as
  its shape says.
\<close>

record 'a ndarray =
  shape :: "nat list"
  data :: "'a list"

definition valid :: "'a ndarray \<Rightarrow> bool" where
  "valid a \<longleftrightarrow> length (data a) = prod_list (shape a)"

definition np_scalar :: "'a \<Rightarrow> 'a ndarray" where
  "np_scalar x = \<lparr>shape = [], data = [x]\<rparr>"

subsection \<open>\<open>sign\<close> of the NumPy fallback branch\<close>

text \<open>
  The elements are numbers of an ordered ring, compared and signed exactly, as
  NumPy does for the integers and floats it holds.  The JAX branch has the same text
  on \<open>jnp\<close>; there the comparison \<open>x == 0\<close> is the one of the XLA backend and is
  not this one.
\<close>

definition np_atleast_1d :: "'a ndarray \<Rightarrow> 'a ndarray" where
  "np_atleast_1d a = (if shape a = [] then a\<lparr>shape := [1]\<rparr> else a)"

text \<open>\<open>x == c\<close> for a scalar \<open>c\<close>, \<open>np.sign(x)\<close>, and
  \<open>np.where(c, k, y)\<close> for a scalar \<open>k\<close> and \<open>c\<close>, \<open>y\<close> of one shape: all
  element by element.\<close>

definition np_equal_scalar :: "'a ndarray \<Rightarrow> 'a \<Rightarrow> bool ndarray" where
  "np_equal_scalar x c = \<lparr>shape = shape x, data = map (\<lambda>v. v = c) (data x)\<rparr>"

definition np_sign :: "'a::linordered_idom ndarray \<Rightarrow> 'a ndarray" where
  "np_sign x = \<lparr>shape = shape x, data = map sgn (data x)\<rparr>"

definition np_where_scalar :: "bool ndarray \<Rightarrow> 'a \<Rightarrow> 'a ndarray \<Rightarrow> 'a ndarray" where
  "np_where_scalar c k y =
     \<lparr>shape = shape y, data = map2 (\<lambda>b v. if b then k else v) (data c) (data y)\<rparr>"

definition sign :: "'a::linordered_idom ndarray \<Rightarrow> 'a ndarray" where
  "sign x =
     (let x = np_atleast_1d x;
          y = np_where_scalar (np_equal_scalar x 0) 1 (np_sign x)
      in y)"

subsection \<open>\<open>put\<close>\<close>

text \<open>
  \<open>arr[inds] = vals\<close> on a NumPy array, for a list of integer indices along the
  first axis (an element of \<open>arr\<close> is a number for a 1-dimensional array, a row
  otherwise).  Every index is normalised as for a sequence, and one out of bounds
  raises \<open>IndexError\<close>; \<open>vals\<close> has one value per index, or a single value
  that is used for every index; the assignments are made in the order of \<open>inds\<close>.
\<close>

fun norm_indices :: "nat \<Rightarrow> int list \<Rightarrow> py_error + nat list" where
  "norm_indices n [] = Inr []"
| "norm_indices n (i # rest) =
     (case norm_index n i of
        Inl e \<Rightarrow> Inl e
      | Inr k \<Rightarrow> (case norm_indices n rest of Inl e \<Rightarrow> Inl e | Inr ks \<Rightarrow> Inr (k # ks)))"

definition broadcast_vals :: "'a list \<Rightarrow> nat \<Rightarrow> py_error + 'a list" where
  "broadcast_vals vals m =
     (if length vals = m then Inr vals
      else if length vals = 1 then Inr (replicate m (hd vals))
      else Inl ValueError)"

definition np_setitem :: "'a list \<Rightarrow> int list \<Rightarrow> 'a list \<Rightarrow> py_error + 'a list" where
  "np_setitem arr inds vals =
     (case norm_indices (length arr) inds of
        Inl e \<Rightarrow> Inl e
      | Inr ks \<Rightarrow>
          (case broadcast_vals vals (length ks) of
             Inl e \<Rightarrow> Inl e
           | Inr vs \<Rightarrow> Inr (fold (\<lambda>(k, v) a. a[k := v]) (zip ks vs) arr)))"

text \<open>
  \<open>x.at[inds].set(vals)\<close> on a JAX array: a new array; a negative index counts
  from the end, and an update at an index out of bounds is dropped.
\<close>

definition jax_index :: "nat \<Rightarrow> int \<Rightarrow> nat option" where
  "jax_index n i =
     (if 0 \<le> i \<and> i < int n then Some (nat i)
      else if - int n \<le> i \<and> i < 0 then Some (nat (i + int n))
      else None)"

definition jax_at_set :: "'a list \<Rightarrow> int list \<Rightarrow> 'a list \<Rightarrow> py_error + 'a list" where
  "jax_at_set arr inds vals =
     (case broadcast_vals vals (length inds) of
        Inl e \<Rightarrow> Inl e
      | Inr vs \<Rightarrow>
          Inr (fold (\<lambda>(i, v) a. case jax_index (length a) i of None \<Rightarrow> a | Some k \<Rightarrow> a[k := v])
                 (zip inds vs) arr))"

text \<open>
  The fallback \<open>put\<close> assigns in place and returns the array it was given.  The
  JAX branch does the same for a NumPy array (\<open>isinstance(arr, np.ndarray)\<close>) and
  returns a new JAX array for anything else (\<open>jnp.asarray(arr)\<close> has the elements
  of \<open>arr\<close>).
\<close>

datatype 'a array_obj = NdArray "'a list" | JaxArray "'a list"

definition put :: "'a list \<Rightarrow> int list \<Rightarrow> 'a list \<Rightarrow> py_error + 'a list" where
  "put arr inds vals = np_setitem arr inds vals"

definition put_jax :: "'a array_obj \<Rightarrow> int list \<Rightarrow> 'a list \<Rightarrow> py_error + 'a array_obj" where
  "put_jax arr inds vals =
     (case arr of
        NdArray a \<Rightarrow>
          (case np_setitem a inds vals of Inl e \<Rightarrow> Inl e | Inr a' \<Rightarrow> Inr (NdArray a'))
      | JaxArray a \<Rightarrow>
          (case jax_at_set a inds vals of Inl e \<Rightarrow> Inl e | Inr a' \<Rightarrow> Inr (JaxArray a')))"

text \<open>An index is in bounds for an axis of length \<open>n\<close> when it is in
  \<open>[-n, n)\<close>; \<open>wrap_index\<close> is the position it stands for.\<close>

definition in_bounds :: "nat \<Rightarrow> int \<Rightarrow> bool" where
  "in_bounds n i \<longleftrightarrow> - int n \<le> i \<and> i < int n"

definition wrap_index :: "nat \<Rightarrow> int \<Rightarrow> nat" where
  "wrap_index n i = nat (if i < 0 then i + int n else i)"

subsection \<open>\<open>vmap\<close>\<close>

text \<open>
  \<open>normalize_axis_index(axis, ndim)\<close>: an axis in \<open>[-ndim, ndim)\<close>, a negative
  one counted from the end; \<open>AxisError\<close> otherwise.
\<close>

definition normalize_axis_index :: "int \<Rightarrow> nat \<Rightarrow> py_error + nat" where
  "normalize_axis_index axis ndim =
     (if - int ndim \<le> axis \<and> axis < int ndim
      then Inr (nat (if axis < 0 then axis + int ndim else axis))
      else Inl AxisError)"

text \<open>The \<open>j\<close>-th block of \<open>m\<close> consecutive elements.\<close>

definition block :: "nat \<Rightarrow> 'a list \<Rightarrow> nat \<Rightarrow> 'a list" where
  "block m d j = take m (drop (j * m) d)"

text \<open>
  \<open>np.stack(arrays, axis)\<close>: raises \<open>ValueError\<close> for no array and for arrays
  of different shapes, normalises the axis against the result's number of dimensions,
  and joins the arrays along the new axis: for every index over the axes before the
  new one, the blocks of the arrays at that index, one array after the other.
\<close>

definition np_stack :: "'a ndarray list \<Rightarrow> int \<Rightarrow> py_error + 'a ndarray" where
  "np_stack arrays axis =
     (if arrays = [] then Inl ValueError
      else if \<exists>a \<in> set arrays. shape a \<noteq> shape (hd arrays) then Inl ValueError
      else
        (let s = shape (hd arrays); result_ndim = length s + 1
         in case normalize_axis_index axis result_ndim of
              Inl e \<Rightarrow> Inl e
            | Inr k \<Rightarrow>
                (let outer = prod_list (take k s); inner = prod_list (drop k s)
                 in Inr \<lparr>shape = take k s @ length arrays # drop k s,
                          data = concat (map (\<lambda>j. concat (map (\<lambda>a. block inner (data a) j) arrays))
                                           [0..<outer])\<rparr>)))"

definition vmap :: "('b \<Rightarrow> 'a ndarray) \<Rightarrow> int \<Rightarrow> 'b list \<Rightarrow> py_error + 'a ndarray" where
  "vmap fun out_axes fun_inputs = np_stack (map fun fun_inputs) out_axes"

text \<open>
  The \<open>i\<close>-th slice of an array along axis \<open>k\<close> (\<open>np.take(a, i, axis=k)\<close>):
  the axis is removed, and for every index over the axes before it the block at
  position \<open>i\<close> of the axis is kept.
\<close>

definition take_axis :: "'a ndarray \<Rightarrow> nat \<Rightarrow> nat \<Rightarrow> 'a ndarray" where
  "take_axis a k i =
     (let s = shape a; outer = prod_list (take k s); n = s ! k;
          inner = prod_list (drop (Suc k) s)
      in \<lparr>shape = take k s @ drop (Suc k) s,
          data = concat (map (\<lambda>j. block inner (data a) (j * n + i)) [0..<outer])\<rparr>)"

subsection \<open>\<open>custom_jvp_with_jit\<close> of the JAX branch\<close>

text \<open>
  The array operations of the derivative rule.  \<open>a.T\<close> reverses the axes: the
  element of \<open>a.T\<close> at an index is the element of \<open>a\<close> at the reversed index.
  \<open>unravel\<close> and \<open>ravel\<close> convert between a position in the row-major data and
  an index.
\<close>

fun unravel :: "nat list \<Rightarrow> nat \<Rightarrow> nat list" where
  "unravel [] p = []"
| "unravel (n # s) p = (p div prod_list s) # unravel s (p mod prod_list s)"

fun ravel :: "nat list \<Rightarrow> nat list \<Rightarrow> nat" where
  "ravel (n # s) (i # idx) = i * prod_list s + ravel s idx"
| "ravel s idx = 0"

definition np_transpose :: "'a ndarray \<Rightarrow> 'a ndarray" where
  "np_transpose a =
     (let s = shape a
      in \<lparr>shape = rev s,
          data = map (\<lambda>p. data a ! ravel s (rev (unravel (rev s) p))) [0..<prod_list s]\<rparr>)"

text \<open>
  Broadcasting: the shapes are aligned at their last axes, the shorter one padded
  with axes of length 1 in front; two lengths are compatible when they are equal or
  one of them is 1, and incompatible shapes raise \<open>ValueError\<close>.  An array is
  broadcast to the common shape by repeating it along every axis where it has length
  1 and the common shape has not; a binary operation is applied element by element
  to the two broadcast arrays.
\<close>

definition pad_shape :: "nat \<Rightarrow> nat list \<Rightarrow> nat list" where
  "pad_shape ndim s = replicate (ndim - length s) 1 @ s"

fun broadcast_dims :: "nat list \<Rightarrow> nat list \<Rightarrow> py_error + nat list" where
  "broadcast_dims [] [] = Inr []"
| "broadcast_dims (m # ms) (n # ns) =
     (if m = n \<or> n = 1 \<or> m = 1
      then (case broadcast_dims ms ns of Inl e \<Rightarrow> Inl e | Inr s \<Rightarrow> Inr ((if m = 1 then n else m) # s))
      else Inl ValueError)"
| "broadcast_dims ms ns = Inl ValueError"

definition broadcast_shapes :: "nat list \<Rightarrow> nat list \<Rightarrow> py_error + nat list" where
  "broadcast_shapes s t =
     (let ndim = max (length s) (length t)
      in broadcast_dims (pad_shape ndim s) (pad_shape ndim t))"

fun broadcast_data :: "nat list \<Rightarrow> nat list \<Rightarrow> 'a list \<Rightarrow> 'a list" where
  "broadcast_data (m # ms) (n # ns) d =
     (if m = n
      then concat (map (\<lambda>j. broadcast_data ms ns (block (prod_list ms) d j)) [0..<n])
      else concat (replicate n (broadcast_data ms ns d)))"
| "broadcast_data ms ns d = d"

definition np_broadcast_to :: "'a ndarray \<Rightarrow> nat list \<Rightarrow> 'a list" where
  "np_broadcast_to a s = broadcast_data (pad_shape (length s) (shape a)) s (data a)"

definition np_binary :: "('a \<Rightarrow> 'a \<Rightarrow> 'a) \<Rightarrow> 'a ndarray \<Rightarrow> 'a ndarray \<Rightarrow> py_error + 'a ndarray" where
  "np_binary f a b =
     (case broadcast_shapes (shape a) (shape b) of
        Inl e \<Rightarrow> Inl e
      | Inr s \<Rightarrow> Inr \<lparr>shape = s, data = map2 f (np_broadcast_to a s) (np_broadcast_to b s)\<rparr>)"

definition np_multiply :: "'a::times ndarray \<Rightarrow> 'a ndarray \<Rightarrow> py_error + 'a ndarray" where
  "np_multiply a b = np_binary (*) a b"

definition np_add :: "'a::plus ndarray \<Rightarrow> 'a ndarray \<Rightarrow> py_error + 'a ndarray" where
  "np_add a b = np_binary (+) a b"

text \<open>The array of zeros of a shape (\<open>np.zeros\<close>).\<close>

definition zeros :: "nat list \<Rightarrow> 'a::zero ndarray" where
  "zeros s = \<lparr>shape = s, data = replicate (prod_list s) 0\<rparr>"

text \<open>
  The elements of the arrays of the derivative rule are floating-point numbers: a
  finite value, an infinity of either sign, or not-a-number.  A product or a sum
  with a not-a-number is one; zero times an infinity and the sum of the two
  infinities are not-a-number; the other products and sums with an infinity are the
  infinity of the resulting sign.  Finite values are kept exact: rounding, overflow
  and the sign of a zero are not modelled.
\<close>

datatype fp = Fin rat | PInf | NInf | NaN

instantiation fp :: "{zero, times, plus}"
begin

definition zero_fp :: fp where
  "zero_fp = Fin 0"

fun times_fp :: "fp \<Rightarrow> fp \<Rightarrow> fp" where
  "times_fp NaN y = NaN"
| "times_fp x NaN = NaN"
| "times_fp (Fin a) (Fin b) = Fin (a * b)"
| "times_fp (Fin a) PInf = (if a = 0 then NaN else if 0 < a then PInf else NInf)"
| "times_fp (Fin a) NInf = (if a = 0 then NaN else if 0 < a then NInf else PInf)"
| "times_fp PInf (Fin b) = (if b = 0 then NaN else if 0 < b then PInf else NInf)"
| "times_fp NInf (Fin b) = (if b = 0 then NaN else if 0 < b then NInf else PInf)"
| "times_fp PInf PInf = PInf"
| "times_fp PInf NInf = NInf"
| "times_fp NInf PInf = NInf"
| "times_fp NInf NInf = PInf"

fun plus_fp :: "fp \<Rightarrow> fp \<Rightarrow> fp" where
  "plus_fp NaN y = NaN"
| "plus_fp x NaN = NaN"
| "plus_fp (Fin a) (Fin b) = Fin (a + b)"
| "plus_fp (Fin a) PInf = PInf"
| "plus_fp (Fin a) NInf = NInf"
| "plus_fp PInf (Fin b) = PInf"
| "plus_fp NInf (Fin b) = NInf"
| "plus_fp PInf PInf = PInf"
| "plus_fp NInf NInf = NInf"
| "plus_fp PInf NInf = NaN"
| "plus_fp NInf PInf = NaN"

instance ..

end

definition finite_fp :: "fp \<Rightarrow> bool" where
  "finite_fp v = (case v of Fin a \<Rightarrow> True | _ \<Rightarrow> False)"

text \<open>
  \<open>dummy\<close> is \<open>func\<close> under \<open>custom_jvp\<close>; \<open>_dummy_jvp\<close> is the rule
  registered by \<open>dummy.defjvp\<close>, with the non-differentiable argument first, then
  the primal point and the tangents.  The Python \<open>0\<close> is the scalar array.
  \<open>custom_jvp_with_jit\<close> returns \<open>jit(dummy, static_argnums=3)\<close>: a function
  that computes \<open>dummy\<close> and carries the rule.
\<close>

definition dummy :: "('r \<Rightarrow> 'l \<Rightarrow> 'm \<Rightarrow> int \<Rightarrow> 'a ndarray) \<Rightarrow> 'r \<Rightarrow> 'l \<Rightarrow> 'm \<Rightarrow> int \<Rightarrow> 'a ndarray" where
  "dummy func r l m dr = func r l m dr"

definition dummy_jvp ::
  "('r \<Rightarrow> 'l \<Rightarrow> 'm \<Rightarrow> int \<Rightarrow> 'a::{zero, times, plus} ndarray) \<Rightarrow> int \<Rightarrow> 'r \<times> 'l \<times> 'm
     \<Rightarrow> 'a ndarray \<times> 'a ndarray \<times> 'a ndarray \<Rightarrow> py_error + 'a ndarray \<times> 'a ndarray" where
  "dummy_jvp func nondiff_dr x xdot =
     (case x of (r, l, m) \<Rightarrow>
      case xdot of (rdot, ldot, mdot) \<Rightarrow>
        let f = dummy func r l m nondiff_dr;
            df = dummy func r l m (nondiff_dr + 1)
        in case np_multiply (np_transpose df) rdot of Inl e \<Rightarrow> Inl e | Inr t \<Rightarrow>
           case np_multiply (np_scalar 0) ldot of Inl e \<Rightarrow> Inl e | Inr zl \<Rightarrow>
           case np_add (np_transpose t) zl of Inl e \<Rightarrow> Inl e | Inr s1 \<Rightarrow>
           case np_multiply (np_scalar 0) mdot of Inl e \<Rightarrow> Inl e | Inr zm \<Rightarrow>
           case np_add s1 zm of Inl e \<Rightarrow> Inl e | Inr s2 \<Rightarrow> Inr (f, s2))"

record ('r, 'l, 'm, 'a) jvp_function =
  primal :: "'r \<Rightarrow> 'l \<Rightarrow> 'm \<Rightarrow> int \<Rightarrow> 'a ndarray"
  jvp_rule :: "int \<Rightarrow> 'r \<times> 'l \<times> 'm \<Rightarrow> 'a ndarray \<times> 'a ndarray \<times> 'a ndarray
                 \<Rightarrow> py_error + 'a ndarray \<times> 'a ndarray"

definition custom_jvp_with_jit_jax ::
  "('r \<Rightarrow> 'l \<Rightarrow> 'm \<Rightarrow> int \<Rightarrow> 'a::{zero, times, plus} ndarray) \<Rightarrow> ('r, 'l, 'm, 'a) jvp_function" where
  "custom_jvp_with_jit_jax func = \<lparr>primal = dummy func, jvp_rule = dummy_jvp func\<rparr>"

text \<open>
  A function of the arguments \<open>r\<close>, \<open>l\<close>, \<open>m\<close>, \<open>dr\<close> to decorate, used as an
  input of the rule: \<open>r\<close> scaled by \<open>dr\<close>.
\<close>

definition scaled :: "fp ndarray \<Rightarrow> fp ndarray \<Rightarrow> fp ndarray \<Rightarrow> int \<Rightarrow> fp ndarray" where
  "scaled r l m dr = \<lparr>shape = shape r, data = map (\<lambda>v. Fin (of_int dr) * v) (data r)\<rparr>"

section \<open>The backend probe at import time\<close>

text \<open>
  Lines 11 to 43 of the module; its \<open>print\<close> calls are left out.  The state of the
  process is the configuration dictionary of \<open>zernipax\<close> (a key that is absent or
  holds \<open>None\<close> reads as \<open>None\<close>), the action of the warnings filter in force,
  and the warnings shown to the user so far.  \<open>set_device\<close> is defined in
  \<open>zernipax/__init__.py\<close>, which is not among the sources: it is a parameter, a
  function from the device kind and the configuration to the new configuration.
  What the installation does is given by \<open>jax_install\<close>: the exception that the
  import statements of lines 16 to 19 raise, if any, and the outcome of
  \<open>len(jax.devices("gpu"))\<close>, which is the number of GPU devices listed, or the
  \<open>RuntimeError\<close> that \<open>jax.devices\<close> raises when the installation has no GPU
  backend.
\<close>

datatype filter_action = Default_action | Ignore_action | Error_action

type_synonym config = "string \<rightharpoonup> string"

record world =
  config :: config
  warn_filter :: filter_action
  shown :: "string list"

record jax_install =
  import_raises :: "py_error option"
  gpu_devices :: "py_error + nat"

datatype array_module = JaxNumpy | NumPy

record backend =
  jnp :: array_module
  use_jax :: bool

text \<open>
  \<open>warnings.warn\<close>: the filter in force decides.  A warning is shown under the
  default action, dropped under \<open>ignore\<close>, and raised as an exception under
  \<open>error\<close>.
\<close>

definition warnings_warn :: "string \<Rightarrow> world \<Rightarrow> py_error + world" where
  "warnings_warn msg w =
     (case warn_filter w of
        Ignore_action \<Rightarrow> Inr w
      | Error_action \<Rightarrow> Inl UserWarning
      | Default_action \<Rightarrow> Inr (w\<lparr>shown := shown w @ [msg]\<rparr>))"

text \<open>Lines 11 and 12: a device is chosen when none is configured.\<close>

definition default_device :: "(string \<Rightarrow> config \<Rightarrow> config) \<Rightarrow> config \<Rightarrow> config" where
  "default_device set_device c = (if c ''device'' = None then set_device ''cpu'' c else c)"

text \<open>
  Lines 22 to 27: the check for a GPU that was asked for and is not there.  The
  \<open>and\<close> of line 22 asks \<open>jax.devices("gpu")\<close> only when the kind is \<open>gpu\<close>, and
  an exception of that call leaves the check.
\<close>

definition gpu_soft_check ::
  "(string \<Rightarrow> config \<Rightarrow> config) \<Rightarrow> jax_install \<Rightarrow> world \<Rightarrow> py_error + world" where
  "gpu_soft_check set_device jax w =
     (if config w ''kind'' = Some ''gpu''
      then (case gpu_devices jax of
              Inl e \<Rightarrow> Inl e
            | Inr n \<Rightarrow>
                (if n = 0
                 then (case warnings_warn
                              ''JAX failed to detect GPU, are you sure you installed JAX with GPU support?'' w of
                         Inl e \<Rightarrow> Inl e
                       | Inr w' \<Rightarrow> Inr (w'\<lparr>config := set_device ''cpu'' (config w')\<rparr>))
                 else Inr w))
      else Inr w)"

text \<open>
  The \<open>try\<close> body, lines 14 to 30.  \<open>warnings.catch_warnings()\<close> saves the
  filter and restores it when the \<open>with\<close> block is left, by its end or by an
  exception; \<open>warnings.simplefilter("ignore")\<close> makes every warning inside the
  block ignored.  The result is the exception or the backend, and the state left.
\<close>

definition try_body ::
  "(string \<Rightarrow> config \<Rightarrow> config) \<Rightarrow> jax_install \<Rightarrow> world \<Rightarrow> (py_error + backend) \<times> world" where
  "try_body set_device jax w =
     (let saved = warn_filter w;
          w1 = w\<lparr>warn_filter := Ignore_action\<rparr>
      in case import_raises jax of
           Some e \<Rightarrow> (Inl e, w1\<lparr>warn_filter := saved\<rparr>)
         | None \<Rightarrow>
             (case gpu_soft_check set_device jax w1 of
                Inl e \<Rightarrow> (Inl e, w1\<lparr>warn_filter := saved\<rparr>)
              | Inr w2 \<Rightarrow> (Inr \<lparr>jnp = JaxNumpy, use_jax = True\<rparr>, w2\<lparr>warn_filter := saved\<rparr>)))"

text \<open>
  The whole probe: \<open>except ModuleNotFoundError\<close> handles that exception and no
  other; any other exception leaves the module.
\<close>

definition backend_probe ::
  "(string \<Rightarrow> config \<Rightarrow> config) \<Rightarrow> jax_install \<Rightarrow> world \<Rightarrow> py_error + backend \<times> world" where
  "backend_probe set_device jax w =
     (let w0 = w\<lparr>config := default_device set_device (config w)\<rparr>
      in case try_body set_device jax w0 of
           (Inr b, w1) \<Rightarrow> Inr (b, w1)
         | (Inl e, w1) \<Rightarrow>
             (if e = ModuleNotFoundError
              then (let w2 = w1\<lparr>config := set_device ''cpu'' (config w1)\<rparr>
                    in case warnings_warn ''Failed to load JAX'' w2 of
                         Inl e' \<Rightarrow> Inl e'
                       | Inr w3 \<Rightarrow> Inr (\<lparr>jnp = NumPy, use_jax = False\<rparr>, w3))
              else Inl e))"

section \<open>Properties of the control-flow shims\<close>

lemma norm_index_in_range: "0 \<le> i \<Longrightarrow> i < int n \<Longrightarrow> norm_index n i = Inr (nat i)"
  by (simp add: norm_index_def)

lemma np_clip_cases:
  "np_clip i 0 hi = (if i < 0 then min hi 0 else if hi < i then hi else i)"
  by (simp add: np_clip_def min_def max_def)

text \<open>
  C1.  For every integer index and every non-empty sequence of branches, \<open>switch\<close>
  clamps the index into \<open>[0, len(branches) - 1]\<close> (a negative index becomes 0, one
  above the last becomes the last, any other is kept) and returns the result of the
  branch at the clamped index on the operand.  Index \<open>-1\<close> runs the first branch and
  index \<open>len(branches)\<close> the last one.
\<close>

theorem switch_clamps_then_dispatches:
  assumes "branches \<noteq> []"
  shows "switch index branches operand =
           Inr ((branches ! nat (np_clip index 0 (int (length branches) - 1))) operand)
    \<and> np_clip index 0 (int (length branches) - 1) =
           (if index < 0 then 0
            else if int (length branches) - 1 < index then int (length branches) - 1
            else index)
    \<and> 0 \<le> np_clip index 0 (int (length branches) - 1)
    \<and> np_clip index 0 (int (length branches) - 1) \<le> int (length branches) - 1
    \<and> switch (- 1) branches operand = Inr (hd branches operand)
    \<and> switch (int (length branches)) branches operand = Inr (last branches operand)"
proof -
  let ?n = "int (length branches)"
  from assms have n: "0 < length branches" by simp
  then have hi: "0 \<le> ?n - 1" by simp
  have c: "np_clip index 0 (?n - 1) =
        (if index < 0 then 0 else if ?n - 1 < index then ?n - 1 else index)"
    using hi by (simp add: np_clip_cases)
  have lo: "0 \<le> np_clip index 0 (?n - 1)"
    using hi by (simp add: c)
  have up: "np_clip index 0 (?n - 1) \<le> ?n - 1"
    using hi by (simp add: c)
  have disp: "switch j branches operand =
        Inr ((branches ! nat (np_clip j 0 (?n - 1))) operand)" for j
  proof -
    have "0 \<le> np_clip j 0 (?n - 1)" and "np_clip j 0 (?n - 1) < ?n"
      using hi by (simp_all add: np_clip_cases)
    then have "getitem branches (np_clip j 0 (?n - 1)) =
        Inr (branches ! nat (np_clip j 0 (?n - 1)))"
      by (simp add: getitem_def norm_index_in_range)
    then show ?thesis by (simp add: switch_def)
  qed
  have "np_clip (- 1) 0 (?n - 1) = 0"
    using hi by (simp add: np_clip_cases)
  then have first: "switch (- 1) branches operand = Inr (hd branches operand)"
    using assms by (simp add: disp hd_conv_nth)
  have "np_clip ?n 0 (?n - 1) = ?n - 1"
    using hi by (simp add: np_clip_cases)
  moreover have "nat (?n - 1) = length branches - 1"
    by simp
  ultimately have final: "switch ?n branches operand = Inr (last branches operand)"
    using assms by (simp add: disp last_conv_nth)
  from disp [of index] c lo up first final show ?thesis
    by blast
qed

theorem switch_clamps_witness:
  "switch 7 [\<lambda>x. x + 1, \<lambda>x. x * 2, \<lambda>x. x - (3::int)] 10 = Inr 7
   \<and> switch (- 1) [\<lambda>x. x + 1, \<lambda>x. x * 2, \<lambda>x. x - (3::int)] 10 = Inr 11
   \<and> switch 3 [\<lambda>x. x + 1, \<lambda>x. x * 2, \<lambda>x. x - (3::int)] 10 = Inr 7
   \<and> np_clip 7 0 (int (length [\<lambda>x. x + 1, \<lambda>x. x * 2, \<lambda>x. x - (3::int)]) - 1) = 2"
proof -
  have ne: "[\<lambda>x. x + 1, \<lambda>x. x * 2, \<lambda>x. x - (3::int)] \<noteq> []" by simp
  show ?thesis
    using switch_clamps_then_dispatches [OF ne, of 7 10]
    by (simp add: np_clip_def)
qed

text \<open>
  C3.  For both values of the predicate, any two branch functions and any operand
  tuple, \<open>cond\<close> returns the true branch applied to the operands when the predicate
  is true and the false branch applied to the operands when it is false.
\<close>

theorem cond_selects_branch:
  "cond True true_fun false_fun operand = true_fun operand
   \<and> cond False true_fun false_fun operand = false_fun operand"
  by (simp add: cond_def)

text \<open>
  C6.  With \<open>lower = upper\<close> the range \<open>np.arange(lower, upper)\<close> is empty and
  \<open>fori_loop\<close> returns the initial value, whatever the body is: also a body that
  raises on every call, so the body is not called.
\<close>

theorem fori_loop_empty_range:
  "np_arange lower lower = []
   \<and> fori_loop lower lower body_fun init_val = Inr init_val
   \<and> fori_loop lower lower (\<lambda>i val. Inl RuntimeError) init_val = Inr init_val"
  by (simp add: fori_loop_def np_arange_def)

text \<open>
  C10 as stated fails: \<open>execute_on_cpu = lambda func: func\<close> has no parameter for
  an extra argument, so a call with one raises \<open>TypeError\<close> and returns nothing.
\<close>

theorem execute_on_cpu_extra_argument_raises:
  "execute_on_cpu Suc [1::nat] ([] :: (string \<times> nat) list) = Inl TypeError"
  by (simp add: execute_on_cpu_def)

text \<open>
  C10, amended.  In the NumPy fallback branch \<open>jit\<close> and \<open>custom_jvp_with_jit\<close>
  return \<open>func\<close> itself for any extra positional and keyword arguments (a keyword
  that binds \<open>func\<close> again aside); \<open>execute_on_cpu\<close> called with \<open>func\<close> alone
  returns \<open>func\<close> itself, and called with any extra argument it raises
  \<open>TypeError\<close>.
\<close>

theorem fallback_decorators_return_func:
  "(''func'' \<notin> fst ` set kwargs \<longrightarrow>
      jit func args kwargs = Inr func \<and> custom_jvp_with_jit func args kwargs = Inr func)
   \<and> execute_on_cpu func [] [] = Inr func
   \<and> (args \<noteq> [] \<or> kwargs \<noteq> [] \<longrightarrow> execute_on_cpu func args kwargs = Inl TypeError)"
  by (simp add: jit_def custom_jvp_with_jit_def execute_on_cpu_def)

theorem fallback_decorators_witness:
  "''func'' \<notin> fst ` set [(''static_argnums'', 3::nat)]
   \<and> jit Suc [True] [(''static_argnums'', 3::nat)] = Inr Suc
   \<and> custom_jvp_with_jit Suc [True] [(''static_argnums'', 3::nat)] = Inr Suc
   \<and> execute_on_cpu Suc ([] :: bool list) ([] :: (string \<times> nat) list) = Inr Suc
   \<and> [True] \<noteq> []
   \<and> execute_on_cpu Suc [True] [(''static_argnums'', 3::nat)] = Inl TypeError"
  using fallback_decorators_return_func
    [of "[(''static_argnums'', 3::nat)]" Suc "[True]"]
  by simp

section \<open>Properties of the array shims\<close>

subsection \<open>\<open>sign\<close>\<close>

text \<open>
  The fallback \<open>sign\<close> keeps the shape of its input (made 1-dimensional when it is
  a scalar) and returns \<open>+1\<close> at every position where \<open>x \<ge> 0\<close> and \<open>-1\<close> at
  every position where \<open>x < 0\<close>; at \<open>x = 0\<close> it returns \<open>+1\<close>.  This is what the
  docstring of \<open>sign\<close> states in both branches.
\<close>

lemma sign_fallback_is_plus_or_minus_one:
  fixes x :: "'a::linordered_idom ndarray"
  shows "shape (sign x) = shape (np_atleast_1d x)
     \<and> length (data (sign x)) = length (data x)
     \<and> (\<forall>p < length (data x).
          (0 \<le> data x ! p \<longrightarrow> data (sign x) ! p = 1) \<and>
          (data x ! p < 0 \<longrightarrow> data (sign x) ! p = - 1))
     \<and> sign (np_scalar (0::'a)) = \<lparr>shape = [1], data = [1]\<rparr>"
  by (auto simp: sign_def np_atleast_1d_def np_where_scalar_def
      np_equal_scalar_def np_sign_def np_scalar_def Let_def)

lemma sign_fallback_example:
  "sign \<lparr>shape = [2, 2], data = [0, - 3, 5, 2 :: int]\<rparr>
     = \<lparr>shape = [2, 2], data = [1, - 1, 1, 1]\<rparr>"
  by (simp add: sign_def np_atleast_1d_def np_where_scalar_def
      np_equal_scalar_def np_sign_def Let_def)

subsection \<open>\<open>put\<close>\<close>

lemma norm_index_wrap: "in_bounds n i \<Longrightarrow> norm_index n i = Inr (wrap_index n i)"
  by (auto simp: in_bounds_def norm_index_def wrap_index_def)

lemma jax_index_wrap: "in_bounds n i \<Longrightarrow> jax_index n i = Some (wrap_index n i)"
  by (auto simp: in_bounds_def jax_index_def wrap_index_def)

lemma wrap_index_less: "in_bounds n i \<Longrightarrow> wrap_index n i < n"
  by (auto simp: in_bounds_def wrap_index_def)

lemma norm_indices_wrap:
  "\<forall>i \<in> set inds. in_bounds n i \<Longrightarrow> norm_indices n inds = Inr (map (wrap_index n) inds)"
  by (induction inds) (simp_all add: norm_index_wrap)

lemma length_fold_update:
  "length (fold (\<lambda>(k, v) a. a[k := v]) ps arr) = length arr"
  by (induction ps arbitrary: arr) auto

lemma fold_update_miss:
  "p \<notin> fst ` set ps \<Longrightarrow> fold (\<lambda>(k, v) a. a[k := v]) ps arr ! p = arr ! p"
  by (induction ps arbitrary: arr) auto

lemma fold_update_hit:
  "distinct (map fst ps) \<Longrightarrow> (k, v) \<in> set ps \<Longrightarrow> k < length arr \<Longrightarrow>
     fold (\<lambda>(k, v) a. a[k := v]) ps arr ! k = v"
proof (induction ps arbitrary: arr)
  case Nil
  then show ?case by simp
next
  case (Cons q ps)
  obtain k' v' where q: "q = (k', v')" by (cases q)
  show ?case
  proof (cases "(k, v) \<in> set ps")
    case True
    with Cons.IH [of "arr[k' := v']"] Cons.prems q show ?thesis by simp
  next
    case False
    with Cons.prems q have eq: "k' = k" "v' = v" by auto
    from Cons.prems q eq have "k \<notin> fst ` set ps" by auto
    then have "fold (\<lambda>(k, v) a. a[k := v]) ps (arr[k := v]) ! k = arr[k := v] ! k"
      by (rule fold_update_miss)
    with Cons.prems q eq show ?thesis by simp
  qed
qed

text \<open>With every index in bounds the JAX update makes the assignments of the NumPy one.\<close>

lemma jax_fold_eq:
  "\<forall>i \<in> set (map fst ps). in_bounds (length arr) i \<Longrightarrow>
   fold (\<lambda>(i, v) a. case jax_index (length a) i of None \<Rightarrow> a | Some k \<Rightarrow> a[k := v]) ps arr
     = fold (\<lambda>(k, v) a. a[k := v]) (map (\<lambda>(i, v). (wrap_index (length arr) i, v)) ps) arr"
proof (induction ps arbitrary: arr)
  case Nil
  then show ?case by simp
next
  case (Cons q ps)
  obtain i v where q: "q = (i, v)" by (cases q)
  from Cons.prems q have ib: "in_bounds (length arr) i" by simp
  from Cons.prems
  have "\<forall>i' \<in> set (map fst ps). in_bounds (length (arr[wrap_index (length arr) i := v])) i'"
    by simp
  from Cons.IH [OF this] ib q show ?case
    by (simp add: jax_index_wrap)
qed

text \<open>
  C4.  For an array \<open>arr\<close>, in-bounds indices \<open>inds\<close> that stand for different
  positions and one value in \<open>vals\<close> per index, \<open>put\<close> returns an array of the
  length of \<open>arr\<close> that holds \<open>vals ! j\<close> at the position of \<open>inds ! j\<close> and the
  value of \<open>arr\<close> at every position that no index stands for.  The fallback branch,
  the JAX branch on a NumPy array and the JAX branch on a JAX array return the same
  elements.
\<close>

theorem put_overwrites_only_inds:
  assumes len: "length vals = length inds"
    and inb: "\<forall>i \<in> set inds. in_bounds (length arr) i"
    and dist: "distinct (map (wrap_index (length arr)) inds)"
  shows "\<exists>r. put arr inds vals = Inr r
           \<and> put_jax (NdArray arr) inds vals = Inr (NdArray r)
           \<and> put_jax (JaxArray arr) inds vals = Inr (JaxArray r)
           \<and> length r = length arr
           \<and> (\<forall>j < length inds. r ! wrap_index (length arr) (inds ! j) = vals ! j)
           \<and> (\<forall>p < length arr. p \<notin> wrap_index (length arr) ` set inds \<longrightarrow> r ! p = arr ! p)"
proof -
  let ?n = "length arr"
  let ?ks = "map (wrap_index ?n) inds"
  let ?r = "fold (\<lambda>(k, v) a. a[k := v]) (zip ?ks vals) arr"
  have ni: "norm_indices ?n inds = Inr ?ks"
    using inb by (rule norm_indices_wrap)
  have bv: "broadcast_vals vals (length inds) = Inr vals"
    using len by (simp add: broadcast_vals_def)
  have np: "np_setitem arr inds vals = Inr ?r"
    by (simp add: np_setitem_def ni bv)
  have zipmap: "map (\<lambda>(i, v). (wrap_index ?n i, v)) (zip inds vals) = zip ?ks vals"
    by (simp add: zip_map1)
  have "\<forall>i \<in> set (map fst (zip inds vals)). in_bounds ?n i"
    using inb len by simp
  then have jx: "jax_at_set arr inds vals = Inr ?r"
    by (simp add: jax_at_set_def bv jax_fold_eq zipmap)
  have fst_zip: "map fst (zip ?ks vals) = ?ks"
    using len by simp
  have hit: "?r ! wrap_index ?n (inds ! j) = vals ! j" if j: "j < length inds" for j
  proof -
    have "zip ?ks vals ! j = (wrap_index ?n (inds ! j), vals ! j)"
      using j len by simp
    moreover have "j < length (zip ?ks vals)"
      using j len by simp
    ultimately have "(wrap_index ?n (inds ! j), vals ! j) \<in> set (zip ?ks vals)"
      by (metis nth_mem)
    moreover have "wrap_index ?n (inds ! j) < length arr"
      using inb j by (simp add: wrap_index_less)
    ultimately show ?thesis
      using dist by (simp add: fold_update_hit fst_zip)
  qed
  have miss: "?r ! p = arr ! p" if "p \<notin> wrap_index ?n ` set inds" for p
  proof -
    have "fst ` set (zip ?ks vals) = set (map fst (zip ?ks vals))" by simp
    also have "\<dots> = wrap_index ?n ` set inds" by (simp only: fst_zip set_map)
    finally show ?thesis using that by (simp add: fold_update_miss)
  qed
  show ?thesis
    using np jx hit miss by (simp add: put_def put_jax_def length_fold_update)
qed

theorem put_witness:
  "put [10, 20, 30, 40 :: int] [- 1, 1] [7, 8] = Inr [10, 8, 30, 7]
   \<and> put_jax (NdArray [10, 20, 30, 40 :: int]) [- 1, 1] [7, 8] = Inr (NdArray [10, 8, 30, 7])
   \<and> put_jax (JaxArray [10, 20, 30, 40 :: int]) [- 1, 1] [7, 8] = Inr (JaxArray [10, 8, 30, 7])"
proof -
  have e: "put [10, 20, 30, 40 :: int] [- 1, 1] [7, 8] = Inr [10, 8, 30, 7]"
    by (simp add: put_def np_setitem_def norm_index_def broadcast_vals_def)
  have h1: "length [7, 8 :: int] = length [- 1, 1 :: int]" by simp
  have h2: "\<forall>i \<in> set [- 1, 1 :: int]. in_bounds (length [10, 20, 30, 40 :: int]) i"
    by (simp add: in_bounds_def)
  have h3: "distinct (map (wrap_index (length [10, 20, 30, 40 :: int])) [- 1, 1])"
    by (simp add: wrap_index_def)
  from put_overwrites_only_inds [OF h1 h2 h3] e show ?thesis
    by auto
qed

subsection \<open>\<open>vmap\<close>\<close>

lemma concat_blocks_take:
  "concat (map (block m d) [0..<n]) = take (n * m) d"
proof (induction n)
  case 0
  then show ?case by simp
next
  case (Suc n)
  have "Suc n * m = n * m + m" by simp
  then have "take (Suc n * m) d = take (n * m) d @ take m (drop (n * m) d)"
    by (simp only: take_add)
  with Suc show ?case by (simp add: block_def)
qed

lemma concat_blocks_all:
  "length d = n * m \<Longrightarrow> concat (map (block m d) [0..<n]) = d"
  by (simp add: concat_blocks_take)

lemma length_block:
  "(Suc j) * m \<le> length d \<Longrightarrow> length (block m d j) = m"
  by (simp add: block_def)

lemma block_concat_equal:
  "\<forall>xs \<in> set xss. length xs = m \<Longrightarrow> j < length xss \<Longrightarrow> block m (concat xss) j = xss ! j"
proof (induction xss arbitrary: j)
  case Nil
  then show ?case by simp
next
  case (Cons xs xss)
  show ?case
  proof (cases j)
    case 0
    with Cons.prems show ?thesis by (simp add: block_def)
  next
    case (Suc j')
    with Cons.prems Cons.IH [of j'] show ?thesis by (simp add: block_def)
  qed
qed

lemma nth_concat_equal:
  "\<forall>xs \<in> set xss. length xs = n \<Longrightarrow> j < length xss \<Longrightarrow> i < n \<Longrightarrow>
     concat xss ! (j * n + i) = xss ! j ! i"
proof (induction xss arbitrary: j)
  case Nil
  then show ?case by simp
next
  case (Cons xs xss)
  show ?case
  proof (cases j)
    case 0
    with Cons.prems show ?thesis by (simp add: nth_append)
  next
    case (Suc j')
    with Cons.prems Cons.IH [of j'] show ?thesis by (simp add: nth_append)
  qed
qed

lemma length_concat_equal:
  "\<forall>xs \<in> set xss. length xs = n \<Longrightarrow> length (concat xss) = length xss * n"
  by (induction xss) simp_all

lemma index_in_blocks: "j < outer \<Longrightarrow> i < n \<Longrightarrow> j * n + i < outer * (n::nat)"
proof -
  assume j: "j < outer" and i: "i < n"
  then have "j * n + i < Suc j * n" by simp
  also have "\<dots> \<le> outer * n" using j by (intro mult_le_mono1) simp
  finally show ?thesis .
qed

lemma concat_concat_map: "concat (concat xss) = concat (map concat xss)"
  by (induction xss) simp_all

lemma stack_take_axis:
  assumes shp: "\<forall>a \<in> set arrays. shape a = s"
    and val: "\<forall>a \<in> set arrays. valid a"
    and k: "k \<le> length s"
    and i: "i < length arrays"
    and outer: "outer = prod_list (take k s)" and inner: "inner = prod_list (drop k s)"
    and r: "r = \<lparr>shape = take k s @ length arrays # drop k s,
       data = concat (map (\<lambda>j. concat (map (\<lambda>a. block inner (data a) j) arrays)) [0..<outer])\<rparr>"
  shows "take_axis r k i = arrays ! i \<and> valid r"
proof -
  let ?n = "length arrays"
  let ?rows = "map (\<lambda>j. map (\<lambda>a. block inner (data a) j) arrays) [0..<outer]"
  let ?bl = "concat ?rows"
  have prod: "prod_list s = outer * inner"
    unfolding outer inner by (metis append_take_drop_id prod_list.append)
  have len: "length (data a) = outer * inner" if "a \<in> set arrays" for a
    using that shp val prod by (simp add: valid_def)
  have blk: "length (block inner (data a) j) = inner" if "a \<in> set arrays" "j < outer" for a j
  proof -
    have "Suc j * inner \<le> outer * inner"
      using that(2) by (intro mult_le_mono1) simp
    then show ?thesis using len [OF that(1)] by (simp add: block_def)
  qed
  have D: "data r = concat ?bl"
    by (simp add: r concat_concat_map comp_def)
  have rows_len: "\<forall>row \<in> set ?rows. length row = ?n"
    by auto
  have bl_len: "length ?bl = outer * ?n"
    using length_concat_equal [OF rows_len] by simp
  have bl_blocks: "\<forall>b \<in> set ?bl. length b = inner"
    using blk by auto
  have at: "block inner (data r) (j * ?n + i) = block inner (data (arrays ! i)) j"
    if j: "j < outer" for j
  proof -
    have "j * ?n + i < length ?bl"
      using j i by (simp add: bl_len index_in_blocks)
    then have "block inner (concat ?bl) (j * ?n + i) = ?bl ! (j * ?n + i)"
      using bl_blocks by (intro block_concat_equal)
    also have "\<dots> = ?rows ! j ! i"
      using rows_len j i by (intro nth_concat_equal) simp_all
    also have "\<dots> = block inner (data (arrays ! i)) j"
      using j i by simp
    finally show ?thesis by (simp add: D)
  qed
  have tk: "take k (shape r) = take k s" and dr: "drop (Suc k) (shape r) = drop k s"
    and nk: "shape r ! k = ?n"
    using k by (simp_all add: r nth_append)
  have m: "map (\<lambda>j. block inner (data r) (j * ?n + i)) [0..<outer]
      = map (\<lambda>j. block inner (data (arrays ! i)) j) [0..<outer]"
    using at by (intro map_cong) simp_all
  have "data (take_axis r k i)
      = concat (map (\<lambda>j. block inner (data r) (j * ?n + i)) [0..<outer])"
    by (simp add: take_axis_def Let_def tk dr nk outer [symmetric] inner [symmetric])
  also have "\<dots> = concat (map (\<lambda>j. block inner (data (arrays ! i)) j) [0..<outer])"
    by (simp only: m)
  also have "\<dots> = data (arrays ! i)"
    using len [of "arrays ! i"] i by (simp add: concat_blocks_all)
  finally have d: "data (take_axis r k i) = data (arrays ! i)" .
  have "shape (take_axis r k i) = take k s @ drop k s"
    by (simp add: take_axis_def Let_def tk dr)
  then have sh: "shape (take_axis r k i) = shape (arrays ! i)"
    using shp i by simp
  have eq: "take_axis r k i = arrays ! i"
    using d sh by simp
  have "length (data r) = outer * ?n * inner"
    using length_concat_equal [OF bl_blocks] by (simp add: D bl_len)
  moreover have "prod_list (shape r) = outer * ?n * inner"
    by (simp add: r outer inner)
  ultimately have "valid r" by (simp add: valid_def)
  with eq show ?thesis by simp
qed

text \<open>
  C5 as stated fails for an empty sequence of inputs: \<open>np.stack\<close> of no array
  raises \<open>ValueError\<close>, so \<open>vmap\<close> returns no array with an axis of length 0.
\<close>

theorem vmap_no_inputs_raises:
  "vmap np_scalar 0 ([] :: int list) = Inl ValueError"
  by (simp add: vmap_def np_stack_def)

text \<open>
  C5, amended.  For a function and a non-empty sequence of \<open>n\<close> inputs whose
  outputs are arrays of one shape \<open>s\<close>, and \<open>out_axes\<close> an axis \<open>k\<close> of the
  result (\<open>0\<close>, the leading axis, by default), \<open>vmap\<close> returns a stacked array of
  shape \<open>s\<close> with \<open>n\<close> inserted at axis \<open>k\<close>, and for every \<open>i < n\<close> its
  \<open>i\<close>-th slice along axis \<open>k\<close> is the function applied to the \<open>i\<close>-th input.
\<close>

theorem vmap_stacks_outputs:
  assumes ne: "fun_inputs \<noteq> []"
    and out: "\<forall>x \<in> set fun_inputs. valid (fun x) \<and> shape (fun x) = s"
    and ax: "normalize_axis_index out_axes (length s + 1) = Inr k"
  shows "\<exists>r. vmap fun out_axes fun_inputs = Inr r
           \<and> valid r
           \<and> shape r = take k s @ length fun_inputs # drop k s
           \<and> shape r ! k = length fun_inputs
           \<and> (\<forall>i < length fun_inputs. take_axis r k i = fun (fun_inputs ! i))"
proof -
  let ?arrays = "map fun fun_inputs"
  let ?outer = "prod_list (take k s)"
  let ?inner = "prod_list (drop k s)"
  let ?r = "\<lparr>shape = take k s @ length ?arrays # drop k s,
       data = concat (map (\<lambda>j. concat (map (\<lambda>a. block ?inner (data a) j) ?arrays)) [0..<?outer])\<rparr>"
  from ax have k: "k \<le> length s"
    by (auto simp: normalize_axis_index_def split: if_splits)
  have shp: "\<forall>a \<in> set ?arrays. shape a = s" and val: "\<forall>a \<in> set ?arrays. valid a"
    using out by auto
  from ne have ne': "?arrays \<noteq> []" by simp
  then have hd_in: "hd ?arrays \<in> set ?arrays" by (rule hd_in_set)
  with shp have hd_s: "shape (hd ?arrays) = s" by blast
  have same: "\<not> (\<exists>a \<in> set ?arrays. shape a \<noteq> shape (hd ?arrays))"
    using shp hd_s by simp
  have st: "np_stack ?arrays out_axes = Inr ?r"
    using ne' same ax by (simp add: np_stack_def hd_s Let_def del: set_map)
  have sl: "take_axis ?r k i = ?arrays ! i \<and> valid ?r" if "i < length ?arrays" for i
    using shp val k that by (rule stack_take_axis) simp_all
  have v: "valid ?r"
    using sl [of 0] ne' by simp
  have "shape ?r ! k = length fun_inputs"
    using k by (simp add: nth_append)
  moreover have "\<forall>i < length fun_inputs. take_axis ?r k i = fun (fun_inputs ! i)"
    using sl by simp
  ultimately show ?thesis
    using st v by (simp add: vmap_def)
qed

theorem vmap_witness:
  "vmap (\<lambda>x. \<lparr>shape = [2], data = [x, x + 1]\<rparr>) 1 [10, 20, 30 :: int]
     = Inr \<lparr>shape = [2, 3], data = [10, 20, 30, 11, 21, 31]\<rparr>
   \<and> take_axis \<lparr>shape = [2, 3], data = [10, 20, 30, 11, 21, 31 :: int]\<rparr> 1 2
     = \<lparr>shape = [2], data = [30, 31]\<rparr>"
proof -
  let ?f = "\<lambda>x :: int. \<lparr>shape = [2], data = [x, x + 1]\<rparr>"
  have e: "vmap ?f 1 [10, 20, 30] = Inr \<lparr>shape = [2, 3], data = [10, 20, 30, 11, 21, 31]\<rparr>"
    by code_simp
  have h1: "[10, 20, 30 :: int] \<noteq> []" by simp
  have h2: "\<forall>x \<in> set [10, 20, 30 :: int]. valid (?f x) \<and> shape (?f x) = [2]"
    by (simp add: valid_def)
  have h3: "normalize_axis_index 1 (length [2 :: nat] + 1) = Inr 1"
    by (simp add: normalize_axis_index_def)
  from vmap_stacks_outputs [OF h1 h2 h3] e
  have "take_axis \<lparr>shape = [2, 3], data = [10, 20, 30, 11, 21, 31 :: int]\<rparr> 1 2 = ?f ([10, 20, 30] ! 2)"
    by auto
  with e show ?thesis by simp
qed

subsection \<open>\<open>custom_jvp_with_jit\<close> of the JAX branch\<close>

lemma broadcast_data_same:
  "length d = prod_list s \<Longrightarrow> broadcast_data s s d = d"
proof (induction s arbitrary: d)
  case Nil
  then show ?case by simp
next
  case (Cons n s)
  let ?P = "prod_list s"
  have "broadcast_data s s (block ?P d j) = block ?P d j" if "j < n" for j
  proof -
    have "Suc j * ?P \<le> n * ?P"
      using that by (intro mult_le_mono1) simp
    with Cons.prems have "length (block ?P d j) = ?P"
      by (simp add: length_block)
    then show ?thesis by (rule Cons.IH)
  qed
  then have m: "map (\<lambda>j. broadcast_data s s (block ?P d j)) [0..<n] = map (block ?P d) [0..<n]"
    by (intro map_cong) simp_all
  have "broadcast_data (n # s) (n # s) d = concat (map (block ?P d) [0..<n])"
    by (simp add: m)
  also have "\<dots> = d"
    using Cons.prems by (simp add: concat_blocks_all)
  finally show ?case .
qed

lemma concat_replicate_replicate:
  "concat (replicate n (replicate m c)) = replicate (n * m) c"
  by (induction n) (simp_all add: replicate_add)

lemma block_replicate:
  "Suc j * m \<le> k \<Longrightarrow> block m (replicate k c) j = replicate m c"
  by (simp add: block_def min_def)

lemma broadcast_data_replicate:
  "list_all2 (\<lambda>m n. m = n \<or> m = 1) ms ns \<Longrightarrow>
     broadcast_data ms ns (replicate (prod_list ms) c) = replicate (prod_list ns) c"
proof (induction ms ns rule: list_all2_induct)
  case Nil
  then show ?case by simp
next
  case (Cons m ms n ns)
  show ?case
  proof (cases "m = n")
    case True
    have "block (prod_list ms) (replicate (n * prod_list ms) c) j = replicate (prod_list ms) c"
      if "j < n" for j
    proof -
      have "Suc j * prod_list ms \<le> n * prod_list ms"
        using that by (intro mult_le_mono1) simp
      then show ?thesis by (rule block_replicate)
    qed
    then have m: "map (\<lambda>j. broadcast_data ms ns (block (prod_list ms) (replicate (n * prod_list ms) c) j)) [0..<n]
        = map (\<lambda>j. replicate (prod_list ns) c) [0..<n]"
      using Cons.IH by (intro map_cong) simp_all
    have "broadcast_data (m # ms) (n # ns) (replicate (prod_list (m # ms)) c)
        = concat (map (\<lambda>j. replicate (prod_list ns) c) [0..<n])"
      using True by (simp add: m)
    also have "\<dots> = concat (replicate n (replicate (prod_list ns) c))"
      by (simp add: map_replicate_const)
    finally show ?thesis by (simp add: concat_replicate_replicate)
  next
    case False
    with Cons.hyps have "m = 1" by simp
    with False Cons.IH show ?thesis
      by (simp add: concat_replicate_replicate)
  qed
qed

lemma prod_list_pad_shape: "prod_list (pad_shape k s) = prod_list s"
  by (simp add: pad_shape_def)

lemma broadcast_dims_ones: "broadcast_dims (replicate (length s) 1) s = Inr s"
  by (induction s) simp_all

lemma broadcast_dims_into:
  "broadcast_dims ms ns = Inr ms \<Longrightarrow> list_all2 (\<lambda>n m. n = m \<or> n = 1) ns ms"
proof (induction ms ns rule: broadcast_dims.induct)
  case 1
  then show ?case by simp
next
  case (2 m ms n ns)
  then show ?case
    by (auto split: if_splits sum.splits)
qed simp_all

lemma broadcast_dims_length:
  "broadcast_dims ms ns = Inr s \<Longrightarrow> length s = length ms \<and> length ns = length ms"
  by (induction ms ns arbitrary: s rule: broadcast_dims.induct) (auto split: if_splits sum.splits)

lemma map2_mult_zeros:
  fixes d :: "'a::{zero, times} list"
  shows "length d = n \<Longrightarrow> \<forall>e \<in> set d. 0 * e = 0 \<Longrightarrow>
     map2 (*) (replicate n 0) d = replicate n 0"
  by (auto simp: list_eq_iff_nth_eq)

lemma map2_add_zeros:
  fixes d :: "'a::{zero, plus} list"
  shows "length d = n \<Longrightarrow> \<forall>e \<in> set d. e + 0 = e \<Longrightarrow>
     map2 (+) d (replicate n 0) = d"
  by (auto simp: list_eq_iff_nth_eq)

lemma fp_add_zero: "x + (0::fp) = x"
  by (cases x) (simp_all add: zero_fp_def)

lemma fp_zero_times: "finite_fp v \<Longrightarrow> (0::fp) * v = 0"
  by (cases v) (simp_all add: zero_fp_def finite_fp_def)

lemma zero_times_array:
  fixes v :: "'a::{zero, times} ndarray"
  assumes "valid v" and z: "\<forall>e \<in> set (data v). 0 * e = 0"
  shows "np_multiply (np_scalar 0) v = Inr (zeros (shape v))"
proof -
  let ?s = "shape v"
  have bs: "broadcast_shapes [] ?s = Inr ?s"
    using broadcast_dims_ones [of ?s] by (simp add: broadcast_shapes_def pad_shape_def)
  have "list_all2 (\<lambda>m n. m = n \<or> m = 1) (replicate (length ?s) 1) ?s"
    by (simp add: list_all2_conv_all_nth)
  from broadcast_data_replicate [OF this, of "0::'a"]
  have b0: "np_broadcast_to (np_scalar 0) ?s = replicate (prod_list ?s) (0::'a)"
    by (simp add: np_broadcast_to_def np_scalar_def pad_shape_def)
  have bv: "np_broadcast_to v ?s = data v"
    using assms by (simp add: np_broadcast_to_def pad_shape_def broadcast_data_same valid_def)
  have "map2 (*) (replicate (prod_list ?s) 0) (data v) = replicate (prod_list ?s) 0"
    using assms by (intro map2_mult_zeros) (simp_all add: valid_def)
  then show ?thesis
    by (simp add: np_multiply_def np_binary_def np_scalar_def bs b0 [unfolded np_scalar_def] bv
        zeros_def)
qed

lemma add_zeros:
  fixes x :: "'a::{zero, plus} ndarray"
  assumes vx: "valid x" and bs: "broadcast_shapes (shape x) s = Inr (shape x)"
    and z: "\<forall>e \<in> set (data x). e + 0 = e"
  shows "np_add x (zeros s) = Inr x"
proof -
  let ?sx = "shape x"
  let ?nd = "max (length ?sx) (length s)"
  from bs have bd: "broadcast_dims (pad_shape ?nd ?sx) (pad_shape ?nd s) = Inr ?sx"
    by (simp add: broadcast_shapes_def Let_def)
  from broadcast_dims_length [OF bd] have "length ?sx = length (pad_shape ?nd ?sx)"
    by simp
  then have nd: "?nd = length ?sx"
    by (simp add: pad_shape_def split: if_splits) 
  have px: "pad_shape (length ?sx) ?sx = ?sx"
    by (simp add: pad_shape_def)
  from bd have bd': "broadcast_dims ?sx (pad_shape (length ?sx) s) = Inr ?sx"
    unfolding nd px .
  from broadcast_dims_into [OF bd']
  have comp: "list_all2 (\<lambda>n m. n = m \<or> n = 1) (pad_shape (length ?sx) s) ?sx" .
  from broadcast_data_replicate [OF comp, of "0::'a"]
  have bz: "np_broadcast_to (zeros s) ?sx = replicate (prod_list ?sx) (0::'a)"
    by (simp add: np_broadcast_to_def zeros_def prod_list_pad_shape)
  have bx: "np_broadcast_to x ?sx = data x"
    using vx by (simp add: np_broadcast_to_def pad_shape_def broadcast_data_same valid_def)
  have "map2 (+) (data x) (replicate (prod_list ?sx) 0) = data x"
    using vx z by (intro map2_add_zeros) (simp_all add: valid_def)
  moreover have "shape (zeros s :: 'a ndarray) = s" by (simp add: zeros_def)
  ultimately show ?thesis
    using bs by (simp add: np_add_def np_binary_def bz bx)
qed

lemma length_broadcast_data:
  "list_all2 (\<lambda>m n. m = n \<or> m = 1) ms ns \<Longrightarrow> length d = prod_list ms \<Longrightarrow>
     length (broadcast_data ms ns d) = prod_list ns"
proof (induction ms ns arbitrary: d rule: list_all2_induct)
  case Nil
  then show ?case by simp
next
  case (Cons m ms n ns)
  show ?case
  proof (cases "m = n")
    case True
    have "length (broadcast_data ms ns (block (prod_list ms) d j)) = prod_list ns" if "j < n" for j
    proof -
      have "Suc j * prod_list ms \<le> n * prod_list ms"
        using that by (intro mult_le_mono1) simp
      with Cons.prems True have "length (block (prod_list ms) d j) = prod_list ms"
        by (simp add: length_block)
      then show ?thesis by (rule Cons.IH)
    qed
    then have "\<forall>xs \<in> set (map (\<lambda>j. broadcast_data ms ns (block (prod_list ms) d j)) [0..<n]).
        length xs = prod_list ns"
      by auto
    from length_concat_equal [OF this] True show ?thesis by simp
  next
    case False
    with Cons.hyps have m1: "m = 1" by simp
    with Cons.prems have "length d = prod_list ms" by simp
    then have "length (broadcast_data ms ns d) = prod_list ns" by (rule Cons.IH)
    moreover have "length (concat (replicate n xs)) = n * length xs" for xs :: "'a list"
      by (induction n) simp_all
    ultimately show ?thesis using False by simp
  qed
qed

lemma broadcast_dims_compatible:
  "broadcast_dims ms ns = Inr s \<Longrightarrow>
     list_all2 (\<lambda>m k. m = k \<or> m = 1) ms s \<and> list_all2 (\<lambda>n k. n = k \<or> n = 1) ns s"
  by (induction ms ns arbitrary: s rule: broadcast_dims.induct)
    (auto split: if_splits sum.splits)

lemma valid_np_binary:
  assumes va: "valid a" and vb: "valid b" and c: "np_binary f a b = Inr c"
  shows "valid c"
proof -
  let ?nd = "max (length (shape a)) (length (shape b))"
  from c obtain s where bs: "broadcast_shapes (shape a) (shape b) = Inr s"
    and cs: "c = \<lparr>shape = s, data = map2 f (np_broadcast_to a s) (np_broadcast_to b s)\<rparr>"
    by (auto simp: np_binary_def split: sum.splits)
  from bs have bd: "broadcast_dims (pad_shape ?nd (shape a)) (pad_shape ?nd (shape b)) = Inr s"
    by (simp add: broadcast_shapes_def Let_def)
  from broadcast_dims_length [OF bd] have ls: "length s = ?nd"
    by (simp add: pad_shape_def)
  from broadcast_dims_compatible [OF bd]
  have ca: "list_all2 (\<lambda>m k. m = k \<or> m = 1) (pad_shape (length s) (shape a)) s"
    and cb: "list_all2 (\<lambda>n k. n = k \<or> n = 1) (pad_shape (length s) (shape b)) s"
    by (simp_all add: ls)
  have "length (np_broadcast_to a s) = prod_list s"
    unfolding np_broadcast_to_def using ca va
    by (intro length_broadcast_data) (simp_all add: prod_list_pad_shape valid_def)
  moreover have "length (np_broadcast_to b s) = prod_list s"
    unfolding np_broadcast_to_def using cb vb
    by (intro length_broadcast_data) (simp_all add: prod_list_pad_shape valid_def)
  ultimately show ?thesis by (simp add: cs valid_def)
qed

lemma valid_np_transpose: "valid a \<Longrightarrow> valid (np_transpose a)"
  by (simp add: valid_def np_transpose_def Let_def prod_list.rev)

text \<open>
  C7 as stated fails in two ways.  With an infinite entry in \<open>ldot\<close> the term
  \<open>0 * ldot\<close> is not-a-number and so is the tangent, where
  \<open>(func(r, l, m, dr + 1).T * rdot).T\<close> is 15.  With an \<open>ldot\<close> of a larger
  shape than that product the tangent is the product broadcast to the shape of
  \<open>ldot\<close>, not the product.
\<close>

theorem jvp_rule_tangent_depends_on_ldot:
  "jvp_rule (custom_jvp_with_jit_jax scaled) 2
      (np_scalar (Fin 5), np_scalar (Fin 1), np_scalar (Fin 1))
      (np_scalar (Fin 1), np_scalar PInf, np_scalar (Fin 0))
     = Inr (np_scalar (Fin 10), np_scalar NaN)
   \<and> np_multiply
        (np_transpose (scaled (np_scalar (Fin 5)) (np_scalar (Fin 1)) (np_scalar (Fin 1)) (2 + 1)))
        (np_scalar (Fin 1))
     = Inr (np_scalar (Fin 15))
   \<and> np_transpose (np_scalar (Fin 15)) = np_scalar (Fin 15)
   \<and> jvp_rule (custom_jvp_with_jit_jax scaled) 2
      (np_scalar (Fin 5), \<lparr>shape = [2], data = [Fin 1, Fin 2]\<rparr>, np_scalar (Fin 1))
      (np_scalar (Fin 1), \<lparr>shape = [2], data = [Fin 3, Fin 4]\<rparr>, np_scalar (Fin 0))
     = Inr (np_scalar (Fin 10), \<lparr>shape = [2], data = [Fin 15, Fin 15]\<rparr>)"
  by code_simp

text \<open>
  C7, amended.  For a function \<open>func\<close> decorated by \<open>custom_jvp_with_jit\<close>, a
  primal point \<open>(r, l, m)\<close>, the static argument \<open>dr\<close> and tangents
  \<open>(rdot, ldot, mdot)\<close> such that \<open>rdot\<close> broadcasts against the transposed value
  of \<open>func\<close> at \<open>dr + 1\<close>, and \<open>ldot\<close> and \<open>mdot\<close> have finite entries and
  shapes that broadcast into the shape of the product: the registered rule returns
  the primal value \<open>func(r, l, m, dr)\<close> and the tangent
  \<open>(func(r, l, m, dr + 1).T * rdot).T\<close>, whatever the entries of \<open>ldot\<close> and
  \<open>mdot\<close> are.  The decorated function itself computes \<open>func\<close>.
\<close>

theorem jvp_rule_is_linear_in_rdot:
  fixes func :: "'r \<Rightarrow> 'l \<Rightarrow> 'm \<Rightarrow> int \<Rightarrow> fp ndarray"
  assumes vdf: "valid (func r l m (dr + 1))"
    and vr: "valid rdot" and vl: "valid ldot" and vm: "valid mdot"
    and t: "np_multiply (np_transpose (func r l m (dr + 1))) rdot = Inr t"
    and bl: "broadcast_shapes (shape (np_transpose t)) (shape ldot) = Inr (shape (np_transpose t))"
    and bm: "broadcast_shapes (shape (np_transpose t)) (shape mdot) = Inr (shape (np_transpose t))"
    and fl: "\<forall>v \<in> set (data ldot). finite_fp v"
    and fm: "\<forall>v \<in> set (data mdot). finite_fp v"
  shows "jvp_rule (custom_jvp_with_jit_jax func) dr (r, l, m) (rdot, ldot, mdot)
           = Inr (func r l m dr, np_transpose t)
       \<and> primal (custom_jvp_with_jit_jax func) r l m dr = func r l m dr"
proof -
  have "valid t"
    using valid_np_transpose [OF vdf] vr t unfolding np_multiply_def by (rule valid_np_binary)
  then have vt: "valid (np_transpose t)" by (rule valid_np_transpose)
  have zl: "np_multiply (np_scalar 0) ldot = Inr (zeros (shape ldot))"
    using vl fl by (intro zero_times_array) (simp_all add: fp_zero_times)
  have zm: "np_multiply (np_scalar 0) mdot = Inr (zeros (shape mdot))"
    using vm fm by (intro zero_times_array) (simp_all add: fp_zero_times)
  have a1: "np_add (np_transpose t) (zeros (shape ldot)) = Inr (np_transpose t)"
    using vt bl by (intro add_zeros) (simp_all add: fp_add_zero)
  have a2: "np_add (np_transpose t) (zeros (shape mdot)) = Inr (np_transpose t)"
    using vt bm by (intro add_zeros) (simp_all add: fp_add_zero)
  show ?thesis
    by (simp add: custom_jvp_with_jit_jax_def dummy_jvp_def dummy_def t zl zm a1 a2)
qed

theorem jvp_rule_witness:
  "jvp_rule (custom_jvp_with_jit_jax
       (\<lambda>r l m dr. \<lparr>shape = [length (data r), length (data l)],
            data = concat (map (\<lambda>x. map (\<lambda>y. x * y + Fin (of_int dr)) (data l)) (data r))\<rparr>)) 0
     (\<lparr>shape = [2], data = [Fin 2, Fin 3]\<rparr>, \<lparr>shape = [3], data = [Fin 1, Fin 2, Fin 3]\<rparr>,
      \<lparr>shape = [3], data = [Fin 0, Fin 0, Fin 0]\<rparr>)
     (\<lparr>shape = [2], data = [Fin 10, PInf]\<rparr>, \<lparr>shape = [3], data = [Fin 5, Fin 6, Fin 7]\<rparr>,
      \<lparr>shape = [3], data = [Fin 8, Fin 9, Fin 4]\<rparr>)
   = Inr (\<lparr>shape = [2, 3], data = [Fin 2, Fin 4, Fin 6, Fin 3, Fin 6, Fin 9]\<rparr>,
          \<lparr>shape = [2, 3], data = [Fin 30, Fin 50, Fin 70, PInf, PInf, PInf]\<rparr>)"
proof -
  let ?f = "\<lambda>(r :: fp ndarray) (l :: fp ndarray) (m :: fp ndarray) dr.
      \<lparr>shape = [length (data r), length (data l)],
       data = concat (map (\<lambda>x. map (\<lambda>y. x * y + Fin (of_int dr)) (data l)) (data r))\<rparr>"
  let ?r = "\<lparr>shape = [2], data = [Fin 2, Fin 3]\<rparr>"
  let ?l = "\<lparr>shape = [3], data = [Fin 1, Fin 2, Fin 3]\<rparr>"
  let ?m = "\<lparr>shape = [3], data = [Fin 0, Fin 0, Fin 0]\<rparr>"
  let ?rdot = "\<lparr>shape = [2], data = [Fin 10, PInf]\<rparr>"
  let ?ldot = "\<lparr>shape = [3], data = [Fin 5, Fin 6, Fin 7]\<rparr>"
  let ?mdot = "\<lparr>shape = [3], data = [Fin 8, Fin 9, Fin 4]\<rparr>"
  let ?t = "\<lparr>shape = [3, 2], data = [Fin 30, PInf, Fin 50, PInf, Fin 70, PInf]\<rparr>"
  have vdf: "valid (?f ?r ?l ?m (0 + 1))" by (simp add: valid_def)
  have vr: "valid ?rdot" and vl: "valid ?ldot" and vm: "valid ?mdot"
    by (simp_all add: valid_def)
  have t: "np_multiply (np_transpose (?f ?r ?l ?m (0 + 1))) ?rdot = Inr ?t"
    by code_simp
  have tt: "np_transpose ?t
      = \<lparr>shape = [2, 3], data = [Fin 30, Fin 50, Fin 70, PInf, PInf, PInf]\<rparr>"
    by code_simp
  have bl: "broadcast_shapes (shape (np_transpose ?t)) (shape ?ldot) = Inr (shape (np_transpose ?t))"
    unfolding tt by code_simp
  have bm: "broadcast_shapes (shape (np_transpose ?t)) (shape ?mdot) = Inr (shape (np_transpose ?t))"
    unfolding tt by code_simp
  have fl: "\<forall>v \<in> set (data ?ldot). finite_fp v" and fm: "\<forall>v \<in> set (data ?mdot). finite_fp v"
    by (simp_all add: finite_fp_def)
  have f0: "?f ?r ?l ?m 0
      = \<lparr>shape = [2, 3], data = [Fin 2, Fin 4, Fin 6, Fin 3, Fin 6, Fin 9]\<rparr>"
    by code_simp
  from jvp_rule_is_linear_in_rdot [of ?f ?r ?l ?m 0 ?rdot ?ldot ?mdot ?t, OF vdf vr vl vm t bl bm fl fm]
  show ?thesis
    by (simp only: tt f0)
qed

section \<open>Properties of the backend probe\<close>

text \<open>
  C8.  When the import raises \<open>ModuleNotFoundError\<close> the probe returns normally
  with \<open>jnp\<close> bound to NumPy, \<open>use_jax = False\<close>, the device set to cpu by
  \<open>set_device\<close> and the warning \<open>Failed to load JAX\<close> shown (under the default
  action of the warnings filter, which is left as it was).  Any other exception of
  the import leaves the probe unhandled.
\<close>

theorem probe_handles_only_module_not_found:
  "(import_raises jax = Some ModuleNotFoundError \<and> warn_filter w = Default_action \<longrightarrow>
      backend_probe set_device jax w =
        Inr (\<lparr>jnp = NumPy, use_jax = False\<rparr>,
             w\<lparr>config := set_device ''cpu'' (default_device set_device (config w)),
               shown := shown w @ [''Failed to load JAX'']\<rparr>))
   \<and> (import_raises jax = Some e \<and> e \<noteq> ModuleNotFoundError \<longrightarrow>
        backend_probe set_device jax w = Inl e)"
  by (auto simp: backend_probe_def try_body_def warnings_warn_def default_device_def Let_def)

theorem probe_witness:
  "backend_probe (\<lambda>kind c. c(''kind'' \<mapsto> kind, ''device'' \<mapsto> kind))
      \<lparr>import_raises = Some ModuleNotFoundError, gpu_devices = Inr 0\<rparr>
      \<lparr>config = Map.empty, warn_filter = Default_action, shown = []\<rparr>
    = Inr (\<lparr>jnp = NumPy, use_jax = False\<rparr>,
           \<lparr>config = [''kind'' \<mapsto> ''cpu'', ''device'' \<mapsto> ''cpu''],
            warn_filter = Default_action, shown = [''Failed to load JAX'']\<rparr>)
   \<and> backend_probe (\<lambda>kind c. c(''kind'' \<mapsto> kind, ''device'' \<mapsto> kind))
      \<lparr>import_raises = Some ImportError, gpu_devices = Inr 0\<rparr>
      \<lparr>config = Map.empty, warn_filter = Default_action, shown = []\<rparr>
    = Inl ImportError"
proof -
  let ?sd = "\<lambda>kind (c :: config). c(''kind'' \<mapsto> kind, ''device'' \<mapsto> kind)"
  let ?w = "\<lparr>config = Map.empty, warn_filter = Default_action, shown = []\<rparr>"
  from probe_handles_only_module_not_found
    [of "\<lparr>import_raises = Some ModuleNotFoundError, gpu_devices = Inr 0\<rparr>" ?w ?sd]
  have a: "backend_probe ?sd \<lparr>import_raises = Some ModuleNotFoundError, gpu_devices = Inr 0\<rparr> ?w
      = Inr (\<lparr>jnp = NumPy, use_jax = False\<rparr>,
           \<lparr>config = [''kind'' \<mapsto> ''cpu'', ''device'' \<mapsto> ''cpu''],
            warn_filter = Default_action, shown = [''Failed to load JAX'']\<rparr>)"
    by (simp add: default_device_def)
  from probe_handles_only_module_not_found
    [of "\<lparr>import_raises = Some ImportError, gpu_devices = Inr 0\<rparr>" ?w ?sd ImportError]
  have b: "backend_probe ?sd \<lparr>import_raises = Some ImportError, gpu_devices = Inr 0\<rparr> ?w
      = Inl ImportError"
    by simp
  from a b show ?thesis by simp
qed

text \<open>
  C9 at a configuration that asks for a GPU, with JAX installed without a GPU
  backend: \<open>jax.devices("gpu")\<close> raises \<open>RuntimeError\<close>, which the
  \<open>except ModuleNotFoundError\<close> clause does not handle.  The probe raises; it shows
  no warning and does not set the device to cpu.
\<close>

theorem gpu_soft_check_raises_without_gpu_backend:
  "backend_probe set_device \<lparr>import_raises = None, gpu_devices = Inl RuntimeError\<rparr>
      \<lparr>config = [''device'' \<mapsto> ''gpu0'', ''kind'' \<mapsto> ''gpu''],
       warn_filter = Default_action, shown = []\<rparr>
    = Inl RuntimeError"
  by (simp add: backend_probe_def try_body_def gpu_soft_check_def default_device_def Let_def)

text \<open>
  The check in general, when the import succeeds.  With a kind other than \<open>gpu\<close>,
  or a GPU device listed, the configuration is left as it is.  With the kind
  \<open>gpu\<close> and an exception of \<open>jax.devices\<close> (other than the one the
  \<open>except\<close> clause handles) the probe raises it.  With the kind
  \<open>gpu\<close> and an empty list of devices the device is set to cpu and nothing is
  raised, but the warning is not shown: \<open>warnings.warn\<close> is called inside the
  \<open>with\<close> block whose filter ignores every warning.
\<close>

lemma gpu_soft_check_effect:
  assumes "import_raises jax = None" and "gpu_devices jax \<noteq> Inl ModuleNotFoundError"
  shows "backend_probe set_device jax w =
     (let c = default_device set_device (config w)
      in if c ''kind'' = Some ''gpu''
         then (case gpu_devices jax of
                 Inl e \<Rightarrow> Inl e
               | Inr n \<Rightarrow>
                   Inr (\<lparr>jnp = JaxNumpy, use_jax = True\<rparr>,
                        w\<lparr>config := (if n = 0 then set_device ''cpu'' c else c)\<rparr>))
         else Inr (\<lparr>jnp = JaxNumpy, use_jax = True\<rparr>, w\<lparr>config := c\<rparr>))"
  using assms
  by (auto simp: backend_probe_def try_body_def gpu_soft_check_def warnings_warn_def
      Let_def split: sum.splits)

end
